theory Spec2Isabelle
  imports Complex_Main
begin

section \<open>The drawing canvas of \<open>src/pages/home.tsx\<close>\<close>

text \<open>
  The component \<open>Home\<close> keeps a list of shapes, a list of wave particles and a handful of
  interaction flags in React state, and changes them in event handlers. The model below
  is a shallow embedding: every handler is a function from the state before the event
  to the state after it.

  \<^item> A JavaScript \<open>number\<close> is modelled as a \<open>real\<close>. Rounding of doubles is left out,
    except in the hit test of \<open>findShapeAt\<close>, where it decides which shape is found.
  \<^item> A handler reads the state of the render it was created in and writes with
    functional updates; the model gives every handler the current state.
  \<^item> What a handler takes from outside the component (the canvas rectangle,
    \<open>Math.random()\<close>, \<open>Date.now()\<close>, whether an audio context can be made) is a field of
    the record \<open>Env\<close>, passed with the event.
  \<^item> Sound and toasts are output: the state carries a log of each.
  \<^item> \<open>setTimeout\<close> and \<open>setInterval\<close> put a callback into the browser's timer queue;
    the queue is part of the state, and a timer firing is an event of its own.
\<close>

subsection \<open>Data model\<close>

datatype ShapeType =
  Circle | Star | Triangle | Heart | Square | Hexagon | Diamond | Flower | Butterfly | Rainbow

datatype Palette = Pastels | RainbowColors | Warm

text \<open>Interface \<open>Shape\<close> (lines 5-14). The fields carry the prefix \<open>shape_\<close>.\<close>

record Shape =
  shape_id :: string
  shape_x :: real
  shape_y :: real
  shape_type :: ShapeType
  shape_color :: string
  shape_size :: real
  shape_palette :: Palette
  shape_opacity :: real

text \<open>Interface \<open>Particle\<close> (lines 51-61).\<close>

record Particle =
  particle_id :: string
  particle_x :: real
  particle_y :: real
  vx :: real
  vy :: real
  life :: real
  maxLife :: real
  particle_color :: string
  particle_size :: real

text \<open>\<open>COLOR_PALETTES\<close> (lines 21-25).\<close>

fun COLOR_PALETTES :: "Palette \<Rightarrow> string list" where
  "COLOR_PALETTES Pastels =
     [''#FFB3E6'', ''#B3E5FF'', ''#B3FFB3'', ''#FFFFB3'', ''#E6B3FF'', ''#FFE6B3'', ''#B3FFFF'', ''#FFB3B3'']"
| "COLOR_PALETTES RainbowColors =
     [''#FF1493'', ''#00CED1'', ''#32CD32'', ''#FFD700'', ''#FF69B4'', ''#00BFFF'', ''#7FFF00'', ''#FF6347'']"
| "COLOR_PALETTES Warm =
     [''#FF4500'', ''#FF8C00'', ''#FFD700'', ''#FF1493'', ''#DC143C'', ''#FF69B4'', ''#FF6B6B'', ''#FF7F50'']"

subsection \<open>Double arithmetic\<close>

text \<open>
  The hit test of \<open>findShapeAt\<close> compares two computed doubles, so its operations are
  modelled with their results as doubles. \<open>toDouble\<close> is the rounding of IEEE 754
  binary64, to the nearest value with ties to the even significand: 53 bits of
  precision, subnormal numbers below \<open>2 ^ (-1022)\<close>, and \<open>None\<close> where the size of the
  rounded value is at least \<open>2 ^ 1024\<close>, which is the double \<open>Infinity\<close> or
  \<open>-Infinity\<close>.
\<close>

definition roundHalfEven :: "real \<Rightarrow> int" where
  "roundHalfEven q =
     (let f = \<lfloor>q\<rfloor>; d = q - of_int f
      in if d < 1 / 2 then f else if 1 / 2 < d then f + 1 else if even f then f else f + 1)"

definition toDouble :: "real \<Rightarrow> real option" where
  "toDouble v =
     (if v = 0 then Some 0
      else
        let e = max \<lfloor>log 2 \<bar>v\<bar>\<rfloor> (- 1022);
            ulp = power_int 2 (e - 52);
            d = of_int (roundHalfEven (v / ulp)) * ulp
        in if 2 ^ 1024 \<le> \<bar>d\<bar> then None else Some d)"

subsection \<open>Environment of a handler\<close>

text \<open>The part of \<open>canvas.getBoundingClientRect()\<close> that the handlers read.\<close>

record Rect =
  rect_left :: real
  rect_top :: real

record PointerEvent =
  clientX :: real
  clientY :: real

text \<open>
  What a handler reads from outside the component while it runs:
  \<^item> \<open>canvas\<close>: \<open>canvasRef.current\<close> with its bounding rectangle, \<open>None\<close> for \<open>null\<close>;
  \<^item> \<open>audioAvailable\<close>: whether \<open>new AudioContext()\<close> succeeds;
  \<^item> \<open>dateNow\<close>: the value of \<open>Date.now()\<close>;
  \<^item> \<open>randomColor\<close>, \<open>randomSize\<close>: the values of \<open>Math.random()\<close> in \<open>getRandomColor\<close>
    and in the \<open>size\<close> field of \<open>createShape\<close>; \<open>Math.random()\<close> is specified to return
    a number \<open>r\<close> with \<open>0 \<le> r < 1\<close>;
  \<^item> \<open>newShapeId\<close>: the string \<open>Date.now() + Math.random().toString()\<close>;
  \<^item> \<open>newWaveId\<close>: the string \<open>`wave-${Date.now()}`\<close>;
  \<^item> \<open>enginePow2\<close>, \<open>engineSqrt\<close>: the values of \<open>a ** 2\<close> and of \<open>Math.sqrt(a)\<close> that the
    JavaScript engine computes for a finite double \<open>a\<close>, which for \<open>Math.sqrt\<close> is not
    negative. ECMAScript leaves both results implementation-approximated, so they are
    inputs of the model; \<open>None\<close> is the result \<open>Infinity\<close>.
\<close>

record Env =
  canvas :: "Rect option"
  audioAvailable :: bool
  dateNow :: real
  randomColor :: real
  randomSize :: real
  newShapeId :: string
  newWaveId :: string
  enginePow2 :: "real \<Rightarrow> real option"
  engineSqrt :: "real \<Rightarrow> real option"

subsection \<open>The operators of the hit test\<close>

text \<open>
  The operators of the expression \<open>Math.sqrt((x - shape.x) ** 2 + (y - shape.y) ** 2)\<close>
  and of \<open>shape.size / 2\<close>, on doubles. Subtraction, addition and division round as
  IEEE 754 says. \<open>** 2\<close> and \<open>Math.sqrt\<close> are the engine's on finite arguments; on the
  others ECMAScript fixes them. \<open>None\<close> is a value that is not finite. Here it can only
  be an infinity: a difference that overflows is squared to \<open>Infinity\<close>, the sum of two
  squares and its root are \<open>Infinity\<close> with it, and \<open>Infinity <= shape.size / 2\<close> is
  false, since half of a finite double is finite. \<open>NaN\<close>, which \<open>Math.sqrt\<close> returns for
  a negative number, compares false as well.
\<close>

definition js_sub :: "real \<Rightarrow> real \<Rightarrow> real option" where
  "js_sub a b = toDouble (a - b)"

fun js_pow2 :: "Env \<Rightarrow> real option \<Rightarrow> real option" where
  "js_pow2 env (Some a) = enginePow2 env a"
| "js_pow2 env None = None"

fun js_add :: "real option \<Rightarrow> real option \<Rightarrow> real option" where
  "js_add (Some a) (Some b) = toDouble (a + b)"
| "js_add a b = None"

fun Math_sqrt :: "Env \<Rightarrow> real option \<Rightarrow> real option" where
  "Math_sqrt env (Some a) = (if a < 0 then None else engineSqrt env a)"
| "Math_sqrt env None = None"

definition js_div2 :: "real \<Rightarrow> real option" where
  "js_div2 a = toDouble (a / 2)"

fun js_le :: "real option \<Rightarrow> real option \<Rightarrow> bool" where
  "js_le (Some a) (Some b) = (a \<le> b)"
| "js_le a b = False"

subsection \<open>\<open>findShapeAt\<close> (lines 466-476)\<close>

text \<open>
  The loop \<open>for (let i = shapes.length - 1; i >= 0; i--)\<close>. The counter of the model is
  the number of shapes still to look at, one more than the index \<open>i\<close> of the source, so
  that every read \<open>shapes ! i\<close> is in range.
\<close>

fun findShapeAt_loop :: "Env \<Rightarrow> Shape list \<Rightarrow> real \<Rightarrow> real \<Rightarrow> nat \<Rightarrow> Shape option" where
  "findShapeAt_loop env shapes x y 0 = None"
| "findShapeAt_loop env shapes x y (Suc i) =
     (let shape = shapes ! i;
          distance = Math_sqrt env (js_add (js_pow2 env (js_sub x (shape_x shape)))
                                           (js_pow2 env (js_sub y (shape_y shape))))
      in if js_le distance (js_div2 (shape_size shape)) then Some shape
         else findShapeAt_loop env shapes x y i)"

definition findShapeAt :: "Env \<Rightarrow> Shape list \<Rightarrow> real \<Rightarrow> real \<Rightarrow> Shape option" where
  "findShapeAt env shapes x y = findShapeAt_loop env shapes x y (length shapes)"

text \<open>The test of the loop body, for one shape.\<close>

abbreviation hitTest :: "Env \<Rightarrow> real \<Rightarrow> real \<Rightarrow> Shape \<Rightarrow> bool" where
  "hitTest env x y shape \<equiv>
     js_le (Math_sqrt env (js_add (js_pow2 env (js_sub x (shape_x shape)))
                                  (js_pow2 env (js_sub y (shape_y shape)))))
           (js_div2 (shape_size shape))"

subsection \<open>State of the component\<close>

datatype NoteType = Create | Delete | Action

text \<open>
  The \<open>useState\<close> cells of \<open>Home\<close> (lines 70-91), the audio context reference, the two
  output logs, and the browser's timer queue: \<open>timeouts\<close> holds the pending \<open>setTimeout\<close>
  callbacks of \<open>handlePointerDown\<close>, each with its handle and the values its closure
  captured (\<open>touchedShape\<close>, \<open>x\<close>, \<open>y\<close>); \<open>intervals\<close> holds the pending progress
  intervals with their \<open>startTime\<close>; \<open>nextHandle\<close> is the handle the browser hands out
  next. A timer handle is a positive integer, so \<open>if (longPressTimer)\<close> tests for
  \<open>null\<close> only.
\<close>

record Home =
  shapes :: "Shape list"
  particles :: "Particle list"
  currentShape :: ShapeType
  currentPalette :: Palette
  currentSize :: real
  eraserMode :: bool
  draggedShape :: "Shape option"
  dragOffset :: "real \<times> real"
  longPressTimer :: "nat option"
  showInstructions :: bool
  showLongPressIndicator :: bool
  longPressProgress :: real
  audioContext :: bool
  playedNotes :: "NoteType list"
  toasts :: "string list"
  timeouts :: "(nat \<times> Shape \<times> real \<times> real) list"
  intervals :: "(nat \<times> real) list"
  nextHandle :: nat

definition initialHome :: Home where
  "initialHome =
     \<lparr>shapes = [], particles = [], currentShape = Circle, currentPalette = Pastels,
      currentSize = 80, eraserMode = False, draggedShape = None, dragOffset = (0, 0),
      longPressTimer = None, showInstructions = True, showLongPressIndicator = False,
      longPressProgress = 0, audioContext = False, playedNotes = [], toasts = [],
      timeouts = [], intervals = [], nextHandle = 1\<rparr>"

subsection \<open>Sound, toasts and timers\<close>

text \<open>\<open>initAudioContext\<close> (lines 96-104): a failure is caught and leaves the reference null.\<close>

definition initAudioContext :: "Env \<Rightarrow> Home \<Rightarrow> Home" where
  "initAudioContext env s =
     (if \<not> audioContext s then s\<lparr>audioContext := audioAvailable env\<rparr> else s)"

text \<open>
  \<open>playNote\<close> (lines 107-176) returns at once without an audio context; otherwise it
  synthesises a tone. The model logs the kind of note and leaves the frequency out.
\<close>

definition playNote :: "NoteType \<Rightarrow> Home \<Rightarrow> Home" where
  "playNote noteType s =
     (if \<not> audioContext s then s else s\<lparr>playedNotes := playedNotes s @ [noteType]\<rparr>)"

definition toast :: "string \<Rightarrow> Home \<Rightarrow> Home" where
  "toast title s = s\<lparr>toasts := toasts s @ [title]\<rparr>"

text \<open>\<open>clearTimeout\<close> and \<open>clearInterval\<close>: the entry of that handle leaves the queue.\<close>

definition clearTimer :: "nat \<Rightarrow> (nat \<times> 'a) list \<Rightarrow> (nat \<times> 'a) list" where
  "clearTimer h queue = filter (\<lambda>entry. fst entry \<noteq> h) queue"

subsection \<open>Creating and deleting shapes\<close>

text \<open>\<open>getRandomColor\<close> (lines 179-182).\<close>

definition getRandomColor :: "Env \<Rightarrow> Home \<Rightarrow> string" where
  "getRandomColor env s =
     (let colors = COLOR_PALETTES (currentPalette s)
      in colors ! nat \<lfloor>randomColor env * real (length colors)\<rfloor>)"

text \<open>\<open>createSpreadingWave\<close> (lines 185-202).\<close>

definition createSpreadingWave :: "Env \<Rightarrow> real \<Rightarrow> real \<Rightarrow> string \<Rightarrow> Home \<Rightarrow> Home" where
  "createSpreadingWave env x y color s =
     (let newParticles =
        [\<lparr>particle_id = newWaveId env, particle_x = x, particle_y = y, vx = 0, vy = 0,
          life = 60, maxLife = 60, particle_color = color, particle_size = currentSize s\<rparr>]
      in s\<lparr>particles := particles s @ newParticles\<rparr>)"

text \<open>\<open>createShape\<close> (lines 479-498).\<close>

definition createShape :: "Env \<Rightarrow> real \<Rightarrow> real \<Rightarrow> Home \<Rightarrow> Home" where
  "createShape env x y s =
     (if eraserMode s then s
      else
        let color = getRandomColor env s;
            newShape =
              \<lparr>shape_id = newShapeId env, shape_x = x, shape_y = y,
               shape_type = currentShape s, shape_color = color,
               shape_size = currentSize s + randomSize env * 20 - 10,
               shape_palette = currentPalette s, shape_opacity = 9 / 10\<rparr>
        in initAudioContext env
             (playNote Create
               (createSpreadingWave env x y color (s\<lparr>shapes := shapes s @ [newShape]\<rparr>))))"

text \<open>\<open>deleteShape\<close> (lines 501-504).\<close>

definition deleteShape :: "Shape \<Rightarrow> Home \<Rightarrow> Home" where
  "deleteShape shapeToDelete s =
     playNote Delete
       (s\<lparr>shapes := filter (\<lambda>shape. shape_id shape \<noteq> shape_id shapeToDelete) (shapes s)\<rparr>)"

subsection \<open>Control panel\<close>

text \<open>\<open>increaseSize\<close> and \<open>decreaseSize\<close> (lines 507-516).\<close>

definition increaseSize :: "Home \<Rightarrow> Home" where
  "increaseSize s = playNote Action (s\<lparr>currentSize := min (currentSize s + 20) 200\<rparr>)"

definition decreaseSize :: "Home \<Rightarrow> Home" where
  "decreaseSize s = playNote Action (s\<lparr>currentSize := max (currentSize s - 20) 20\<rparr>)"

text \<open>\<open>Array.prototype.indexOf\<close>: the first index of the value, \<open>-1\<close> when it is absent.\<close>

fun indexOf_from :: "'a list \<Rightarrow> 'a \<Rightarrow> int \<Rightarrow> int" where
  "indexOf_from [] v i = - 1"
| "indexOf_from (a # as) v i = (if a = v then i else indexOf_from as v (i + 1))"

definition indexOf :: "'a list \<Rightarrow> 'a \<Rightarrow> int" where
  "indexOf xs v = indexOf_from xs v 0"

text \<open>
  \<open>cycleShape\<close> (lines 623-629). The local array \<open>shapes\<close> of the source is \<open>shapeKinds\<close>
  here. \<open>currentIndex + 1\<close> is never negative, where \<open>%\<close> and \<open>mod\<close> agree.
\<close>

definition shapeKinds :: "ShapeType list" where
  "shapeKinds =
     [Circle, Star, Triangle, Heart, Square, Hexagon, Diamond, Flower, Butterfly, Rainbow]"

definition cycleShape :: "Home \<Rightarrow> Home" where
  "cycleShape s =
     (let currentIndex = indexOf shapeKinds (currentShape s)
      in playNote Action
           (s\<lparr>currentShape := shapeKinds ! nat ((currentIndex + 1) mod int (length shapeKinds))\<rparr>))"

text \<open>\<open>cyclePalette\<close> (lines 632-637).\<close>

definition palettes :: "Palette list" where
  "palettes = [Pastels, RainbowColors, Warm]"

definition cyclePalette :: "Home \<Rightarrow> Home" where
  "cyclePalette s =
     (let currentIndex = indexOf palettes (currentPalette s)
      in playNote Action
           (s\<lparr>currentPalette := palettes ! nat ((currentIndex + 1) mod int (length palettes))\<rparr>))"

text \<open>\<open>toggleEraser\<close> (lines 640-643).\<close>

definition toggleEraser :: "Home \<Rightarrow> Home" where
  "toggleEraser s = playNote Action (s\<lparr>eraserMode := \<not> eraserMode s\<rparr>)"

text \<open>\<open>clearCanvas\<close> (lines 646-657).\<close>

definition clearCanvas :: "Home \<Rightarrow> Home" where
  "clearCanvas s =
     (if length (shapes s) > 0
      then toast ''Canvas Cleared'' (playNote Action (s\<lparr>shapes := [], particles := []\<rparr>))
      else s)"

subsection \<open>Pointer handlers\<close>

text \<open>
  The callback that \<open>handlePointerDown\<close> gives to \<open>setTimeout\<close> (lines 542-560), with
  the values its closure holds.
\<close>

definition longPressCallback :: "Shape \<Rightarrow> real \<Rightarrow> real \<Rightarrow> Home \<Rightarrow> Home" where
  "longPressCallback touchedShape x y s =
     toast ''Drag Mode''
       (playNote Action
         (s\<lparr>draggedShape := Some touchedShape,
            dragOffset := (x - shape_x touchedShape, y - shape_y touchedShape),
            showLongPressIndicator := False,
            shapes := map (\<lambda>shape. if shape_id shape = shape_id touchedShape
                                     then shape\<lparr>shape_opacity := 7 / 10\<rparr> else shape)
                          (shapes s)\<rparr>))"

text \<open>
  \<open>handlePointerDown\<close> (lines 519-579). The timeout gets the handle \<open>nextHandle\<close>, the
  progress interval the one after it.
\<close>

definition handlePointerDown :: "Env \<Rightarrow> PointerEvent \<Rightarrow> Home \<Rightarrow> Home" where
  "handlePointerDown env event s0 =
     (let s = initAudioContext env s0
      in case canvas env of
           None \<Rightarrow> s
         | Some rect \<Rightarrow>
             let x = clientX event - rect_left rect;
                 y = clientY event - rect_top rect
             in (case findShapeAt env (shapes s) x y of
                   Some touchedShape \<Rightarrow>
                     if eraserMode s then deleteShape touchedShape s
                     else
                       let timer = nextHandle s;
                           progressInterval = Suc (nextHandle s)
                       in s\<lparr>showLongPressIndicator := True,
                            longPressProgress := 0,
                            timeouts := timeouts s @ [(timer, touchedShape, x, y)],
                            longPressTimer := Some timer,
                            intervals := intervals s @ [(progressInterval, dateNow env)],
                            nextHandle := nextHandle s + 2\<rparr>
                 | None \<Rightarrow> createShape env x y s))"

text \<open>The browser runs the timeout of handle \<open>h\<close>: it leaves the queue and its callback runs.\<close>

definition timeoutFires :: "nat \<Rightarrow> Home \<Rightarrow> Home" where
  "timeoutFires h s =
     (case map_of (timeouts s) h of
        None \<Rightarrow> s
      | Some (touchedShape, x, y) \<Rightarrow>
          longPressCallback touchedShape x y (s\<lparr>timeouts := clearTimer h (timeouts s)\<rparr>))"

text \<open>The browser runs the progress interval of handle \<open>h\<close> (lines 566-574).\<close>

definition intervalFires :: "Env \<Rightarrow> nat \<Rightarrow> Home \<Rightarrow> Home" where
  "intervalFires env h s =
     (case map_of (intervals s) h of
        None \<Rightarrow> s
      | Some startTime \<Rightarrow>
          let elapsed = dateNow env - startTime;
              progress = min (elapsed / 1500) 1;
              s1 = s\<lparr>longPressProgress := progress\<rparr>
          in if progress \<ge> 1 then s1\<lparr>intervals := clearTimer h (intervals s1)\<rparr> else s1)"

text \<open>\<open>handlePointerMove\<close> (lines 582-597).\<close>

definition handlePointerMove :: "Env \<Rightarrow> PointerEvent \<Rightarrow> Home \<Rightarrow> Home" where
  "handlePointerMove env event s =
     (case draggedShape s of
        None \<Rightarrow> s
      | Some dragged \<Rightarrow>
          (case canvas env of
             None \<Rightarrow> s
           | Some rect \<Rightarrow>
               let x = clientX event - rect_left rect - fst (dragOffset s);
                   y = clientY event - rect_top rect - snd (dragOffset s)
               in s\<lparr>shapes := map (\<lambda>shape. if shape_id shape = shape_id dragged
                                             then shape\<lparr>shape_x := x, shape_y := y\<rparr> else shape)
                                  (shapes s)\<rparr>))"

text \<open>\<open>handlePointerUp\<close> (lines 600-620).\<close>

definition handlePointerUp :: "Home \<Rightarrow> Home" where
  "handlePointerUp s0 =
     (let s1 = (case longPressTimer s0 of
                  Some t \<Rightarrow> s0\<lparr>timeouts := clearTimer t (timeouts s0), longPressTimer := None\<rparr>
                | None \<Rightarrow> s0);
          s2 = (case draggedShape s1 of
                  Some dragged \<Rightarrow>
                    playNote Action
                      (s1\<lparr>shapes := map (\<lambda>shape. if shape_id shape = shape_id dragged
                                                 then shape\<lparr>shape_opacity := 1\<rparr> else shape)
                                      (shapes s1)\<rparr>)
                | None \<Rightarrow> s1)
      in s2\<lparr>showLongPressIndicator := False, longPressProgress := 0,
           draggedShape := None, dragOffset := (0, 0)\<rparr>)"

subsection \<open>Particle ageing\<close>

text \<open>The callback of the update interval (lines 796-809).\<close>

definition updateParticles :: "Home \<Rightarrow> Home" where
  "updateParticles s =
     s\<lparr>particles :=
         filter (\<lambda>particle. life particle > 0)
           (map (\<lambda>particle. particle\<lparr>particle_x := particle_x particle,
                                      particle_y := particle_y particle,
                                      vx := 0, vy := 0, life := life particle - 1\<rparr>)
                (particles s))\<rparr>"

subsection \<open>Events\<close>

text \<open>
  One event of the page: a pointer event on the canvas, a click on a button of the
  control panel, or a timer of the browser running its callback.
\<close>

datatype Event =
    PointerDown PointerEvent
  | PointerMove PointerEvent
  | PointerUp
  | TimeoutFires nat
  | IntervalFires nat
  | ParticlesTick
  | ClickShape
  | ClickPalette
  | ClickIncrease
  | ClickDecrease
  | ClickEraser
  | ClickClear

fun step :: "Env \<Rightarrow> Event \<Rightarrow> Home \<Rightarrow> Home" where
  "step env (PointerDown event) s = handlePointerDown env event s"
| "step env (PointerMove event) s = handlePointerMove env event s"
| "step env PointerUp s = handlePointerUp s"
| "step env (TimeoutFires h) s = timeoutFires h s"
| "step env (IntervalFires h) s = intervalFires env h s"
| "step env ParticlesTick s = updateParticles s"
| "step env ClickShape s = cycleShape s"
| "step env ClickPalette s = cyclePalette s"
| "step env ClickIncrease s = increaseSize s"
| "step env ClickDecrease s = decreaseSize s"
| "step env ClickEraser s = toggleEraser s"
| "step env ClickClear s = clearCanvas s"

fun run :: "(Env \<times> Event) list \<Rightarrow> Home \<Rightarrow> Home" where
  "run [] s = s"
| "run ((env, e) # es) s = run es (step env e s)"

text \<open>A sequence of calls of the two size buttons.\<close>

datatype SizeCall = Increase | Decrease

fun sizeCall :: "SizeCall \<Rightarrow> Home \<Rightarrow> Home" where
  "sizeCall Increase s = increaseSize s"
| "sizeCall Decrease s = decreaseSize s"

fun sizeCalls :: "SizeCall list \<Rightarrow> Home \<Rightarrow> Home" where
  "sizeCalls [] s = s"
| "sizeCalls (c # cs) s = sizeCalls cs (sizeCall c s)"

subsection \<open>Concrete inputs\<close>

text \<open>
  An environment with the canvas at the origin of the viewport, both random draws at
  one half and an engine whose square and square root are correctly rounded, a pointer event, two overlapping shapes, and the page after one tap at
  \<open>(100, 100)\<close>: one circle of size 80 there, and its wave.
\<close>

definition canvasEnv :: Env where
  "canvasEnv =
     \<lparr>canvas = Some \<lparr>rect_left = 0, rect_top = 0\<rparr>, audioAvailable = True, dateNow = 1000,
      randomColor = 1 / 2, randomSize = 1 / 2, newShapeId = ''1000.5'',
      newWaveId = ''wave-1000'',
      enginePow2 = (\<lambda>a. toDouble (a\<^sup>2)), engineSqrt = (\<lambda>a. toDouble (sqrt a))\<rparr>"

definition tap :: "real \<Rightarrow> real \<Rightarrow> PointerEvent" where
  "tap x y = \<lparr>clientX = x, clientY = y\<rparr>"

definition shapeA :: Shape where
  "shapeA =
     \<lparr>shape_id = ''a'', shape_x = 100, shape_y = 100, shape_type = Circle,
      shape_color = ''#FFB3E6'', shape_size = 80, shape_palette = Pastels,
      shape_opacity = 9 / 10\<rparr>"

definition shapeB :: Shape where
  "shapeB =
     \<lparr>shape_id = ''b'', shape_x = 103, shape_y = 104, shape_type = Star,
      shape_color = ''#B3E5FF'', shape_size = 20, shape_palette = Pastels,
      shape_opacity = 9 / 10\<rparr>"

text \<open>
  A circle whose size is the double 80.02499609497022, written as a fraction. It is
  the size that \<open>createShape\<close> computes from the size 80 and the random draw
  0.501249804748511.
\<close>

definition shapeG :: Shape where
  "shapeG =
     \<lparr>shape_id = ''g'', shape_x = 100, shape_y = 100, shape_type = Circle,
      shape_color = ''#FFB3E6'', shape_size = 351953654876595 / 4398046511104,
      shape_palette = Pastels, shape_opacity = 9 / 10\<rparr>"

definition oneShape :: Home where
  "oneShape = run [(canvasEnv, PointerDown (tap 100 100)), (canvasEnv, PointerUp)] initialHome"

text \<open>A page with two waves, one fresh and one at the end of its life.\<close>

definition twoParticles :: Home where
  "twoParticles =
     initialHome\<lparr>particles :=
       [\<lparr>particle_id = ''wave-1'', particle_x = 10, particle_y = 10, vx = 0, vy = 0,
         life = 60, maxLife = 60, particle_color = ''#FFB3E6'', particle_size = 80\<rparr>,
        \<lparr>particle_id = ''wave-2'', particle_x = 20, particle_y = 20, vx = 0, vy = 0,
         life = 1, maxLife = 60, particle_color = ''#B3E5FF'', particle_size = 80\<rparr>]\<rparr>"

text \<open>The initial page after a click on the eraser button.\<close>

definition eraserOn :: Home where
  "eraserOn = run [(canvasEnv, ClickEraser)] initialHome"

text \<open>
  What can happen between a pointer-down and the pointer-up of a press while no
  long-press timeout fires and nothing else is touched: the pointer moves, and the
  progress interval and the particle interval tick.
\<close>

fun whilePressed :: "Event \<Rightarrow> bool" where
  "whilePressed (PointerMove event) = True"
| "whilePressed (IntervalFires h) = True"
| "whilePressed ParticlesTick = True"
| "whilePressed e = False"

text \<open>
  The page with one shape after a long press on it: the timeout of the press, handle 1,
  has fired and the shape is being dragged.
\<close>

definition dragging :: Home where
  "dragging =
     run [(canvasEnv, PointerDown (tap 100 100)), (canvasEnv, TimeoutFires 1)] oneShape"

text \<open>The page with one shape after two pointer-downs on it and no pointer-up.\<close>

definition pressedTwice :: Home where
  "pressedTwice =
     run [(canvasEnv, PointerDown (tap 100 100)), (canvasEnv, PointerDown (tap 100 100))] oneShape"

text \<open>
  The same page after the pointer-up that follows: no shape is dragged, and the timeout
  of the first pointer-down, handle 1, is still in the queue.
\<close>

definition orphanTimer :: Home where
  "orphanTimer = run [(canvasEnv, PointerUp)] pressedTwice"

section \<open>Properties\<close>

subsection \<open>Double arithmetic\<close>

text \<open>
  Rounding leaves an integer below \<open>2 ^ 53\<close> as it is, and a value between two
  neighbouring doubles goes to the nearer one.
\<close>

lemma roundHalfEven_int: "roundHalfEven (of_int m) = m"
  by (simp add: roundHalfEven_def)

lemma roundHalfEven_down:
  "of_int n \<le> q \<Longrightarrow> q < of_int n + 1 / 2 \<Longrightarrow> roundHalfEven q = n"
proof -
  assume a: "of_int n \<le> q" "q < of_int n + 1 / 2"
  then have "\<lfloor>q\<rfloor> = n" by (simp add: floor_eq_iff)
  with a show ?thesis by (simp add: roundHalfEven_def)
qed

lemma toDouble_zero: "toDouble 0 = Some 0"
  by (simp add: toDouble_def)

lemma toDouble_normal:
  fixes e :: nat
  assumes e: "e \<le> 52"
    and lo: "2 ^ e \<le> v"
    and hi: "v < 2 ^ Suc e"
    and rnd: "roundHalfEven (v * 2 ^ (52 - e)) = n"
    and fin: "\<bar>of_int n / 2 ^ (52 - e)\<bar> < (2::real) ^ 1024"
  shows "toDouble v = Some (of_int n / 2 ^ (52 - e))"
proof -
  have "(0::real) < 2 ^ e" by simp
  with lo have pos: "0 < v" by linarith
  have "\<lfloor>log 2 v\<rfloor> = int e"
    using pos lo hi by (simp add: floor_log_eq_powr_iff powr_realpow powr_add)
  then have ex: "max \<lfloor>log 2 \<bar>v\<bar>\<rfloor> (- 1022) = int e" using pos by simp
  have ulp: "power_int (2::real) (int e - 52) = 1 / 2 ^ (52 - e)"
  proof -
    have h: "int e - 52 = - int (52 - e)" using e by simp
    show ?thesis unfolding h by (simp add: power_int_minus inverse_eq_divide)
  qed
  have "v / (1 / 2 ^ (52 - e)) = v * 2 ^ (52 - e)" by simp
  with rnd fin pos show ?thesis
    unfolding toDouble_def Let_def ex ulp by simp
qed

lemma toDouble_int:
  assumes nz: "k \<noteq> 0" and small: "\<bar>k\<bar> < 2 ^ 53"
  shows "toDouble (of_int k) = Some (of_int k)"
proof -
  define a where "a = nat \<bar>k\<bar>"
  have a: "0 < a" "a < 2 ^ 53" "real a = \<bar>of_int k\<bar>"
    using nz small by (auto simp: a_def)
  define e where "e = nat \<lfloor>log 2 (real a)\<rfloor>"
  have ge0: "0 \<le> \<lfloor>log 2 (real a)\<rfloor>" using a(1) by simp
  have le52: "\<lfloor>log 2 (real a)\<rfloor> \<le> 52"
  proof (rule ccontr)
    assume "\<not> \<lfloor>log 2 (real a)\<rfloor> \<le> 52"
    then have "53 \<le> log 2 (real a)" by linarith
    then have "2 powr 53 \<le> real a" using a(1) by (simp add: le_log_iff)
    moreover have "real a < 2 ^ 53" using a(2) by (metis of_nat_less_iff of_nat_numeral of_nat_power)
    ultimately show False by simp
  qed
  have fl: "\<lfloor>log 2 \<bar>real_of_int k\<bar>\<rfloor> = int e" using ge0 a(3) by (simp add: e_def)
  have e52: "e \<le> 52" unfolding e_def using le52 ge0 by linarith
  have ex: "max \<lfloor>log 2 \<bar>real_of_int k\<bar>\<rfloor> (- 1022) = int e" using fl by simp
  have ulp: "power_int (2::real) (int e - 52) = 1 / 2 ^ (52 - e)"
  proof -
    have h: "int e - 52 = - int (52 - e)" using e52 by simp
    show ?thesis unfolding h by (simp add: power_int_minus inverse_eq_divide)
  qed
  have q: "real_of_int k / (1 / 2 ^ (52 - e)) = of_int (k * 2 ^ (52 - e))" by simp
  have fin: "\<bar>real_of_int k\<bar> < 2 ^ 1024"
  proof -
    have "\<bar>real_of_int k\<bar> < 2 ^ 53" using small by (metis of_int_abs of_int_less_iff of_int_numeral of_int_power)
    also have "(2::real) ^ 53 \<le> 2 ^ 1024" by (rule power_increasing) simp_all
    finally show ?thesis .
  qed
  show ?thesis
    unfolding toDouble_def Let_def ex ulp q roundHalfEven_int
    using nz fin by simp
qed

lemma toDouble_numeral:
  "(numeral w :: int) < 2 ^ 53 \<Longrightarrow> toDouble (numeral w) = Some (numeral w)"
  using toDouble_int [of "numeral w"] by simp

lemma toDouble_neg_numeral:
  "(numeral w :: int) < 2 ^ 53 \<Longrightarrow> toDouble (- numeral w) = Some (- numeral w)"
  using toDouble_int [of "- numeral w"] by simp

lemma toDouble_one: "toDouble 1 = Some 1"
  using toDouble_int [of 1] by simp

lemma toDouble_sqrt_1601:
  "toDouble (sqrt 1601) = Some (351953654876595 / 8796093022208)"
proof -
  have lo: "2 ^ 5 \<le> sqrt 1601" by (rule real_le_rsqrt) simp
  have hi: "sqrt 1601 < 2 ^ Suc 5" by (rule real_less_lsqrt) simp_all
  have rnd: "roundHalfEven (sqrt 1601 * 2 ^ (52 - 5)) = 5631258478025520"
  proof (rule roundHalfEven_down)
    show "real_of_int 5631258478025520 \<le> sqrt 1601 * 2 ^ (52 - 5)"
    proof -
      have "5631258478025520 / 2 ^ 47 \<le> sqrt 1601" by (rule real_le_rsqrt) (simp add: power2_eq_square)
      then show ?thesis by (simp add: field_simps)
    qed
    show "sqrt 1601 * 2 ^ (52 - 5) < real_of_int 5631258478025520 + 1 / 2"
    proof -
      have "sqrt 1601 < (5631258478025520 + 1 / 2) / 2 ^ 47"
        by (rule real_less_lsqrt) (simp_all add: power2_eq_square)
      then show ?thesis by (simp add: field_simps)
    qed
  qed
  from toDouble_normal [of 5 "sqrt 1601", OF _ lo hi rnd] show ?thesis by simp
qed

lemma toDouble_half_size:
  "toDouble (351953654876595 / 8796093022208) = Some (351953654876595 / 8796093022208)"
proof -
  have rnd: "roundHalfEven ((351953654876595 / 8796093022208) * 2 ^ (52 - 5)) = 5631258478025520"
  proof -
    have "(351953654876595 / 8796093022208) * 2 ^ (52 - 5) = real_of_int 5631258478025520" by simp
    then show ?thesis by (simp only: roundHalfEven_int)
  qed
  from toDouble_normal [of 5 "351953654876595 / 8796093022208", OF _ _ _ rnd] show ?thesis by simp
qed

lemma sqrt_squares:
  "sqrt 25 = 5" "sqrt 100 = 10" "sqrt 225 = 15" "sqrt 2025 = 45" "sqrt 2500 = 50"
  by (rule real_sqrt_unique, simp, simp)+

lemmas double_simps =
  js_sub_def js_div2_def toDouble_zero toDouble_one toDouble_numeral toDouble_neg_numeral
  sqrt_squares

text \<open>The equations that evaluate a handler on a concrete page.\<close>

lemmas handler_defs =
  handlePointerDown_def handlePointerUp_def handlePointerMove_def timeoutFires_def
  intervalFires_def longPressCallback_def createShape_def createSpreadingWave_def
  getRandomColor_def deleteShape_def initAudioContext_def playNote_def toast_def
  clearTimer_def findShapeAt_def updateParticles_def toggleEraser_def clearCanvas_def
  double_simps

lemmas input_defs = canvasEnv_def tap_def initialHome_def

subsection \<open>The shape under the pointer\<close>

lemma findShapeAt_loop_find:
  "n \<le> length shs \<Longrightarrow>
   findShapeAt_loop env shs x y n =
     List.find (\<lambda>s. hitTest env x y s)
       (rev (take n shs))"
proof (induction n)
  case 0
  show ?case by simp
next
  case (Suc n)
  then have "take (Suc n) shs = take n shs @ [shs ! n]"
    by (simp add: take_Suc_conv_app_nth)
  with Suc show ?case by (simp add: Let_def)
qed

lemma findShapeAt_find:
  "findShapeAt env shs x y =
     List.find (\<lambda>s. hitTest env x y s) (rev shs)"
  by (simp add: findShapeAt_def findShapeAt_loop_find)

lemma findShapeAt_loop_Some:
  "findShapeAt_loop env shs x y n = Some s \<longleftrightarrow>
     (\<exists>i<n. s = shs ! i
        \<and> hitTest env x y (shs ! i)
        \<and> (\<forall>j. i < j \<and> j < n \<longrightarrow>
              \<not> hitTest env x y (shs ! j)))"
proof (induction n)
  case 0
  show ?case by simp
next
  case (Suc n)
  let ?hit = "\<lambda>k. hitTest env x y (shs ! k)"
  show ?case
  proof (cases "?hit n")
    case True
    have "(\<exists>i<Suc n. s = shs ! i \<and> ?hit i \<and> (\<forall>j. i < j \<and> j < Suc n \<longrightarrow> \<not> ?hit j)) \<longleftrightarrow> s = shs ! n"
    proof
      assume "\<exists>i<Suc n. s = shs ! i \<and> ?hit i \<and> (\<forall>j. i < j \<and> j < Suc n \<longrightarrow> \<not> ?hit j)"
      then obtain i where i: "i < Suc n" "s = shs ! i" "\<forall>j. i < j \<and> j < Suc n \<longrightarrow> \<not> ?hit j"
        by blast
      have "\<not> i < n" using i(3) True by blast
      with i(1) have "i = n" by simp
      with i(2) show "s = shs ! n" by simp
    next
      assume "s = shs ! n"
      with True show "\<exists>i<Suc n. s = shs ! i \<and> ?hit i \<and> (\<forall>j. i < j \<and> j < Suc n \<longrightarrow> \<not> ?hit j)"
        by (intro exI[of _ n]) auto
    qed
    with True show ?thesis by (auto simp: Let_def)
  next
    case False
    have "(\<exists>i<Suc n. s = shs ! i \<and> ?hit i \<and> (\<forall>j. i < j \<and> j < Suc n \<longrightarrow> \<not> ?hit j))
          \<longleftrightarrow> (\<exists>i<n. s = shs ! i \<and> ?hit i \<and> (\<forall>j. i < j \<and> j < n \<longrightarrow> \<not> ?hit j))"
      (is "?L \<longleftrightarrow> ?R")
    proof
      assume ?L
      then obtain i where i: "i < Suc n" "s = shs ! i" "?hit i" "\<forall>j. i < j \<and> j < Suc n \<longrightarrow> \<not> ?hit j"
        by blast
      from i(3) False have "i \<noteq> n" by blast
      with i(1) have "i < n" by simp
      moreover from i(4) have "\<forall>j. i < j \<and> j < n \<longrightarrow> \<not> ?hit j" by simp
      ultimately show ?R using i(2,3) by blast
    next
      assume ?R
      then obtain i where i: "i < n" "s = shs ! i" "?hit i" "\<forall>j. i < j \<and> j < n \<longrightarrow> \<not> ?hit j"
        by blast
      have "\<forall>j. i < j \<and> j < Suc n \<longrightarrow> \<not> ?hit j"
        using i(4) False by (metis less_Suc_eq)
      with i(1,2,3) show ?L by (intro exI[of _ i]) simp
    qed
    with False Suc.IH show ?thesis by (simp add: Let_def)
  qed
qed

lemma findShapeAt_mem: "findShapeAt env shs x y = Some t \<Longrightarrow> t \<in> set shs"
  unfolding findShapeAt_def findShapeAt_loop_Some by auto

text \<open>
  C3, as the code has it. \<open>findShapeAt\<close> scans the shapes from the last one created to
  the first and returns the first one that passes the test of the loop: the distance
  from the point to the centre, computed in doubles as the square root of the sum of
  the squared differences, is at most the double \<open>size / 2\<close>. The result is the shape of
  the largest index that passes, and \<open>None\<close> (the source's \<open>null\<close>) exactly when no
  shape passes.
\<close>

theorem findShapeAt_topmost:
  "findShapeAt env shs x y =
     List.find (\<lambda>s. hitTest env x y s) (rev shs)
   \<and> (\<forall>s. findShapeAt env shs x y = Some s \<longleftrightarrow>
         (\<exists>i<length shs. s = shs ! i
            \<and> hitTest env x y (shs ! i)
            \<and> (\<forall>j. i < j \<and> j < length shs \<longrightarrow>
                  \<not> hitTest env x y (shs ! j))))
   \<and> (findShapeAt env shs x y = None \<longleftrightarrow>
         (\<forall>s\<in>set shs. \<not> hitTest env x y s))"
proof (intro conjI allI)
  show "findShapeAt env shs x y =
     List.find (\<lambda>s. hitTest env x y s) (rev shs)"
    by (rule findShapeAt_find)
next
  fix s
  show "findShapeAt env shs x y = Some s \<longleftrightarrow>
         (\<exists>i<length shs. s = shs ! i
            \<and> hitTest env x y (shs ! i)
            \<and> (\<forall>j. i < j \<and> j < length shs \<longrightarrow>
                  \<not> hitTest env x y (shs ! j)))"
    unfolding findShapeAt_def by (rule findShapeAt_loop_Some)
next
  show "findShapeAt env shs x y = None \<longleftrightarrow>
         (\<forall>s\<in>set shs. \<not> hitTest env x y s)"
    unfolding findShapeAt_find find_None_iff set_rev by blast
qed

text \<open>
  Of two overlapping shapes the later one wins where both are hit, the earlier one where
  only it is hit, and a point far from both hits nothing.
\<close>

theorem findShapeAt_topmost_witness:
  "findShapeAt canvasEnv [shapeA, shapeB] 100 100 = Some shapeB
   \<and> findShapeAt canvasEnv [shapeA, shapeB] 94 92 = Some shapeA
   \<and> findShapeAt canvasEnv [shapeA, shapeB] 130 140 = None"
proof -
  have both: "hitTest canvasEnv 100 100 shapeB"
    by (simp add: shapeB_def canvasEnv_def double_simps)
  have first: "hitTest canvasEnv 94 92 shapeA" "\<not> hitTest canvasEnv 94 92 shapeB"
    by (simp_all add: shapeA_def shapeB_def canvasEnv_def double_simps)
  have none: "\<not> hitTest canvasEnv 130 140 shapeA" "\<not> hitTest canvasEnv 130 140 shapeB"
    by (simp_all add: shapeA_def shapeB_def canvasEnv_def double_simps)
  from findShapeAt_topmost [of canvasEnv "[shapeA, shapeB]" 100 100] both
  have "findShapeAt canvasEnv [shapeA, shapeB] 100 100 = Some shapeB" by simp
  moreover from findShapeAt_topmost [of canvasEnv "[shapeA, shapeB]" 94 92] first
  have "findShapeAt canvasEnv [shapeA, shapeB] 94 92 = Some shapeA" by simp
  moreover from findShapeAt_topmost [of canvasEnv "[shapeA, shapeB]" 130 140] none
  have "findShapeAt canvasEnv [shapeA, shapeB] 130 140 = None" by simp
  ultimately show ?thesis by blast
qed

text \<open>
  C3 as stated, with the exact Euclidean distance, fails at a rounding boundary. The
  shape \<open>shapeG\<close> lies at \<open>(100, 100)\<close> and has the size 80.02499609497022. The point
  \<open>(101, 140)\<close> is at distance \<open>sqrt 1601\<close> from its centre, which is more than half the
  size. But the squares 1 and 1600 are exact, and the double nearest to \<open>sqrt 1601\<close>,
  40.01249804748511, is exactly half the size: the test of the loop passes and
  \<open>findShapeAt\<close> returns the shape.
\<close>

theorem findShapeAt_counterexample:
  "findShapeAt canvasEnv [shapeG] 101 140 = Some shapeG
   \<and> \<not> sqrt ((101 - shape_x shapeG)\<^sup>2 + (140 - shape_y shapeG)\<^sup>2) \<le> shape_size shapeG / 2"
proof -
  have "hitTest canvasEnv 101 140 shapeG"
    by (simp add: shapeG_def canvasEnv_def double_simps toDouble_sqrt_1601 toDouble_half_size)
  then have "findShapeAt canvasEnv [shapeG] 101 140 = Some shapeG"
    by (simp add: findShapeAt_def)
  moreover have "\<not> sqrt ((101 - shape_x shapeG)\<^sup>2 + (140 - shape_y shapeG)\<^sup>2) \<le> shape_size shapeG / 2"
  proof -
    have "351953654876595 / 8796093022208 < sqrt 1601"
      by (rule real_less_rsqrt) (simp add: power2_eq_square)
    then show ?thesis by (simp add: shapeG_def)
  qed
  ultimately show ?thesis by blast
qed

subsection \<open>The size buttons\<close>

lemma sizeCall_range:
  "20 \<le> currentSize s \<and> currentSize s \<le> 200 \<Longrightarrow>
   20 \<le> currentSize (sizeCall c s) \<and> currentSize (sizeCall c s) \<le> 200"
  by (cases c) (auto simp: increaseSize_def decreaseSize_def playNote_def)

lemma sizeCalls_range:
  "20 \<le> currentSize s \<and> currentSize s \<le> 200 \<Longrightarrow>
   20 \<le> currentSize (sizeCalls cs s) \<and> currentSize (sizeCalls cs s) \<le> 200"
proof (induction cs arbitrary: s)
  case Nil
  then show ?case by simp
next
  case (Cons c cs)
  from Cons.prems have "20 \<le> currentSize (sizeCall c s) \<and> currentSize (sizeCall c s) \<le> 200"
    by (rule sizeCall_range)
  then show ?case using Cons.IH by simp
qed

text \<open>
  C6. The size starts at 80; \<open>increaseSize\<close> takes a size \<open>s\<close> to \<open>min (s + 20) 200\<close> and
  \<open>decreaseSize\<close> takes it to \<open>max (s - 20) 20\<close>; after any finite sequence of calls of
  the two from the initial state the size is between 20 and 200.
\<close>

theorem size_stays_in_range:
  "currentSize initialHome = 80
   \<and> currentSize (increaseSize s) = min (currentSize s + 20) 200
   \<and> currentSize (decreaseSize s) = max (currentSize s - 20) 20
   \<and> 20 \<le> currentSize (sizeCalls cs initialHome)
   \<and> currentSize (sizeCalls cs initialHome) \<le> 200"
proof -
  have "20 \<le> currentSize initialHome \<and> currentSize initialHome \<le> 200"
    by (simp add: initialHome_def)
  from sizeCalls_range [OF this]
  show ?thesis
    by (simp add: initialHome_def increaseSize_def decreaseSize_def playNote_def)
qed

subsection \<open>Clearing the canvas\<close>

text \<open>
  C7. With at least one shape on the canvas, \<open>clearCanvas\<close> empties the shapes and the
  particles. With no shape it returns the state as it was: nothing changes, no note is
  played and no toast is shown.
\<close>

theorem clearCanvas_effect:
  "(shapes s \<noteq> [] \<longrightarrow> shapes (clearCanvas s) = [] \<and> particles (clearCanvas s) = [])
   \<and> (shapes s = [] \<longrightarrow> clearCanvas s = s
         \<and> playedNotes (clearCanvas s) = playedNotes s \<and> toasts (clearCanvas s) = toasts s)"
  by (simp add: clearCanvas_def toast_def playNote_def)

text \<open>
  After one tap there are a shape and a particle, and clearing removes both; on the
  initial page clearing does nothing.
\<close>

theorem clearCanvas_effect_witness:
  "length (shapes oneShape) = 1 \<and> length (particles oneShape) = 1
   \<and> shapes (clearCanvas oneShape) = [] \<and> particles (clearCanvas oneShape) = []
   \<and> shapes initialHome = [] \<and> clearCanvas initialHome = initialHome"
proof -
  have one: "length (shapes oneShape) = 1 \<and> length (particles oneShape) = 1"
    by (simp add: oneShape_def input_defs handler_defs Let_def)
  then have ne: "shapes oneShape \<noteq> []" by auto
  have emp: "shapes initialHome = []" by (simp add: initialHome_def)
  from clearCanvas_effect [of oneShape] ne
  have "shapes (clearCanvas oneShape) = [] \<and> particles (clearCanvas oneShape) = []" by blast
  moreover from clearCanvas_effect [of initialHome] emp
  have "clearCanvas initialHome = initialHome" by blast
  ultimately show ?thesis using one emp by blast
qed

subsection \<open>Particle ageing\<close>

lemma updateParticles_list:
  "particles (updateParticles s) =
     map (\<lambda>p. p\<lparr>vx := 0, vy := 0, life := life p - 1\<rparr>)
       (filter (\<lambda>p. life p - 1 > 0) (particles s))"
  by (simp add: updateParticles_def filter_map comp_def)

text \<open>
  C8. One tick of the update interval takes every particle's life down by exactly one,
  keeps the particles in order, and keeps a particle if and only if its life after the
  decrement is positive. For a life that is a whole number of at least one, as every
  particle made by \<open>createSpreadingWave\<close> has, the particle goes exactly when its life
  reaches zero.
\<close>

theorem updateParticles_ages:
  "particles (updateParticles s) =
     map (\<lambda>p. p\<lparr>vx := 0, vy := 0, life := life p - 1\<rparr>)
       (filter (\<lambda>p. life p - 1 > 0) (particles s))
   \<and> (\<forall>p\<in>set (particles s).
         life (p\<lparr>vx := 0, vy := 0, life := life p - 1\<rparr>) = life p - 1
       \<and> life (p\<lparr>vx := 0, vy := 0, life := life p - 1\<rparr>) < life p
       \<and> (p\<lparr>vx := 0, vy := 0, life := life p - 1\<rparr> \<in> set (particles (updateParticles s))
            \<longleftrightarrow> life p - 1 > 0)
       \<and> (\<forall>n::nat. life p = real n \<and> 1 \<le> n \<longrightarrow>
            (p\<lparr>vx := 0, vy := 0, life := life p - 1\<rparr> \<notin> set (particles (updateParticles s))
              \<longleftrightarrow> life p - 1 = 0)))"
proof (intro conjI ballI)
  show "particles (updateParticles s) =
     map (\<lambda>p. p\<lparr>vx := 0, vy := 0, life := life p - 1\<rparr>)
       (filter (\<lambda>p. life p - 1 > 0) (particles s))"
    by (rule updateParticles_list)
next
  fix p assume "p \<in> set (particles s)"
  show "life (p\<lparr>vx := 0, vy := 0, life := life p - 1\<rparr>) = life p - 1" by simp
next
  fix p assume "p \<in> set (particles s)"
  show "life (p\<lparr>vx := 0, vy := 0, life := life p - 1\<rparr>) < life p" by simp
next
  fix p assume p: "p \<in> set (particles s)"
  show mem: "p\<lparr>vx := 0, vy := 0, life := life p - 1\<rparr> \<in> set (particles (updateParticles s))
            \<longleftrightarrow> life p - 1 > 0"
    using p by (auto simp: updateParticles_def)
  show "\<forall>n::nat. life p = real n \<and> 1 \<le> n \<longrightarrow>
            (p\<lparr>vx := 0, vy := 0, life := life p - 1\<rparr> \<notin> set (particles (updateParticles s))
              \<longleftrightarrow> life p - 1 = 0)"
  proof (intro allI impI)
    fix n :: nat assume n: "life p = real n \<and> 1 \<le> n"
    then have "0 \<le> life p - 1" by simp
    then have "\<not> life p - 1 > 0 \<longleftrightarrow> life p - 1 = 0" by linarith
    with mem show "p\<lparr>vx := 0, vy := 0, life := life p - 1\<rparr> \<notin> set (particles (updateParticles s))
              \<longleftrightarrow> life p - 1 = 0" by simp
  qed
qed

text \<open>Of a wave with life 60 and one with life 1, the first stays with life 59.\<close>

theorem updateParticles_ages_witness:
  "map life (particles twoParticles) = [60, 1]
   \<and> map life (particles (updateParticles twoParticles)) = [59]"
  using updateParticles_ages [of twoParticles]
  by (simp add: twoParticles_def initialHome_def)

text \<open>
  On every page reached from the initial one, the life of each particle is a whole
  number of at least one: waves start at 60 and lose one per tick.
\<close>

lemma step_particle_lives:
  assumes "\<forall>p\<in>set (particles s). \<exists>n::nat. 1 \<le> n \<and> life p = real n"
  shows "\<forall>p\<in>set (particles (step env e s)). \<exists>n::nat. 1 \<le> n \<and> life p = real n"
proof (cases e)
  case ParticlesTick
  show ?thesis
  proof
    fix q assume "q \<in> set (particles (step env e s))"
    with ParticlesTick obtain p where p: "p \<in> set (particles s)" "life q = life p - 1" "life p - 1 > 0"
      by (auto simp: updateParticles_def)
    from assms p(1) obtain n :: nat where n: "1 \<le> n" "life p = real n" by blast
    with p(3) have "2 \<le> n" by simp
    with n p(2) have "1 \<le> n - 1 \<and> life q = real (n - 1)" by (simp add: of_nat_diff)
    then show "\<exists>n::nat. 1 \<le> n \<and> life q = real n" by blast
  qed
next
  case (PointerDown event)
  have sixty: "\<exists>n::nat. 1 \<le> n \<and> (60::real) = real n"
    by (rule exI [of _ 60]) simp
  from assms sixty PointerDown show ?thesis
    by (auto simp: handlePointerDown_def initAudioContext_def createShape_def deleteShape_def
        createSpreadingWave_def playNote_def Let_def split: option.splits)
next
  case (PointerMove event)
  with assms show ?thesis
    by (auto simp: handlePointerMove_def Let_def split: option.splits)
next
  case PointerUp
  with assms show ?thesis
    by (auto simp: handlePointerUp_def playNote_def Let_def split: option.splits)
next
  case (TimeoutFires h)
  with assms show ?thesis
    by (auto simp: timeoutFires_def longPressCallback_def toast_def playNote_def split: option.splits)
next
  case (IntervalFires h)
  with assms show ?thesis
    by (auto simp: intervalFires_def Let_def split: option.splits)
next
  case ClickShape
  with assms show ?thesis by (simp add: cycleShape_def playNote_def Let_def)
next
  case ClickPalette
  with assms show ?thesis by (simp add: cyclePalette_def playNote_def Let_def)
next
  case ClickIncrease
  with assms show ?thesis by (simp add: increaseSize_def playNote_def)
next
  case ClickDecrease
  with assms show ?thesis by (simp add: decreaseSize_def playNote_def)
next
  case ClickEraser
  with assms show ?thesis by (simp add: toggleEraser_def playNote_def)
next
  case ClickClear
  with assms show ?thesis by (simp add: clearCanvas_def toast_def playNote_def)
qed

lemma run_particle_lives:
  "\<forall>p\<in>set (particles s). \<exists>n::nat. 1 \<le> n \<and> life p = real n \<Longrightarrow>
   \<forall>p\<in>set (particles (run es s)). \<exists>n::nat. 1 \<le> n \<and> life p = real n"
proof (induction es arbitrary: s)
  case Nil
  then show ?case by simp
next
  case (Cons entry es)
  obtain env e where "entry = (env, e)" by (cases entry)
  with Cons.IH [OF step_particle_lives [OF Cons.prems, of env e]] show ?case by simp
qed

lemma reachable_particle_lives:
  "\<forall>p\<in>set (particles (run es initialHome)). \<exists>n::nat. 1 \<le> n \<and> life p = real n"
  by (rule run_particle_lives) (simp add: initialHome_def)

subsection \<open>Cycling the shape kind\<close>

lemma cycleShape_next:
  "currentShape (cycleShape s) =
     shapeKinds ! nat ((indexOf shapeKinds (currentShape s) + 1) mod 10)"
  by (simp add: cycleShape_def playNote_def Let_def shapeKinds_def)

lemma cycleShape_cases:
  "currentShape (cycleShape s) =
     (case currentShape s of
        Circle \<Rightarrow> Star | Star \<Rightarrow> Triangle | Triangle \<Rightarrow> Heart | Heart \<Rightarrow> Square
      | Square \<Rightarrow> Hexagon | Hexagon \<Rightarrow> Diamond | Diamond \<Rightarrow> Flower | Flower \<Rightarrow> Butterfly
      | Butterfly \<Rightarrow> Rainbow | Rainbow \<Rightarrow> Circle)"
  unfolding cycleShape_next
  by (cases "currentShape s") (simp_all add: shapeKinds_def indexOf_def)

lemma cycleShape_funpow:
  "currentShape ((cycleShape ^^ n) s) =
     ((\<lambda>k. case k of
        Circle \<Rightarrow> Star | Star \<Rightarrow> Triangle | Triangle \<Rightarrow> Heart | Heart \<Rightarrow> Square
      | Square \<Rightarrow> Hexagon | Hexagon \<Rightarrow> Diamond | Diamond \<Rightarrow> Flower | Flower \<Rightarrow> Butterfly
      | Butterfly \<Rightarrow> Rainbow | Rainbow \<Rightarrow> Circle) ^^ n) (currentShape s)"
  by (induction n) (simp_all add: cycleShape_cases)

text \<open>
  C9. There are ten shape kinds. Ten calls of \<open>cycleShape\<close> bring the current kind back
  to where it was, and one call moves it from any position of the list \<open>circle, star,
  triangle, heart, square, hexagon, diamond, flower, butterfly, rainbow\<close> to the next
  one, from the last to the first.
\<close>

theorem cycleShape_period:
  "length shapeKinds = 10
   \<and> currentShape ((cycleShape ^^ 10) s) = currentShape s
   \<and> map (\<lambda>k. currentShape (cycleShape (s\<lparr>currentShape := k\<rparr>))) shapeKinds = rotate1 shapeKinds
   \<and> (\<forall>i<10. currentShape s = shapeKinds ! i \<longrightarrow>
         currentShape (cycleShape s) = shapeKinds ! ((i + 1) mod 10))"
proof (intro conjI)
  show "length shapeKinds = 10" by (simp add: shapeKinds_def)
  show "currentShape ((cycleShape ^^ 10) s) = currentShape s"
    unfolding cycleShape_funpow
    by (cases "currentShape s") (simp_all add: eval_nat_numeral)
  show "map (\<lambda>k. currentShape (cycleShape (s\<lparr>currentShape := k\<rparr>))) shapeKinds = rotate1 shapeKinds"
    by (simp add: cycleShape_cases shapeKinds_def)
  show "\<forall>i<10. currentShape s = shapeKinds ! i \<longrightarrow>
         currentShape (cycleShape s) = shapeKinds ! ((i + 1) mod 10)"
  proof (intro allI impI)
    fix i :: nat assume "i < 10" and cur: "currentShape s = shapeKinds ! i"
    then have "i \<in> {0, 1, 2, 3, 4, 5, 6, 7, 8, 9}" by auto
    then show "currentShape (cycleShape s) = shapeKinds ! ((i + 1) mod 10)"
      unfolding cycleShape_cases cur
      by (auto simp: shapeKinds_def)
  qed
qed

text \<open>From the last kind, rainbow, one call wraps to circle and ten return to rainbow.\<close>

theorem cycleShape_period_witness:
  "currentShape (initialHome\<lparr>currentShape := Rainbow\<rparr>) = shapeKinds ! 9
   \<and> currentShape (cycleShape (initialHome\<lparr>currentShape := Rainbow\<rparr>)) = shapeKinds ! 0
   \<and> currentShape ((cycleShape ^^ 10) (initialHome\<lparr>currentShape := Rainbow\<rparr>)) = Rainbow"
proof -
  let ?s = "initialHome\<lparr>currentShape := Rainbow\<rparr>"
  have cur: "currentShape ?s = shapeKinds ! 9"
    by (simp add: shapeKinds_def)
  note period = cycleShape_period [of ?s]
  from period have "(9::nat) < 10 \<longrightarrow> currentShape ?s = shapeKinds ! 9 \<longrightarrow>
       currentShape (cycleShape ?s) = shapeKinds ! ((9 + 1) mod 10)"
    by blast
  with cur have "currentShape (cycleShape ?s) = shapeKinds ! 0"
    by simp
  moreover from period have "currentShape ((cycleShape ^^ 10) ?s) = Rainbow"
    by simp
  ultimately show ?thesis using cur by blast
qed

subsection \<open>Erasing\<close>

lemma filter_other_ids:
  "distinct (map f xs) \<Longrightarrow> t \<in> set xs \<Longrightarrow> filter (\<lambda>u. f u \<noteq> f t) xs = remove1 t xs"
proof (induction xs)
  case Nil
  then show ?case by simp
next
  case (Cons a xs)
  show ?case
  proof (cases "a = t")
    case True
    with Cons.prems have "f t \<notin> f ` set xs" by simp
    then have "\<forall>u\<in>set xs. f u \<noteq> f t" by (metis imageI)
    then have "filter (\<lambda>u. f u \<noteq> f t) xs = xs" by (simp add: filter_id_conv)
    with True show ?thesis by simp
  next
    case False
    with Cons.prems have "t \<in> set xs" and "f a \<noteq> f t" by auto
    with Cons show ?thesis using False by simp
  qed
qed

lemma handlePointerDown_erase:
  "canvas env = Some rect \<Longrightarrow> eraserMode s \<Longrightarrow>
   findShapeAt env (shapes s) (clientX event - rect_left rect) (clientY event - rect_top rect) = Some t \<Longrightarrow>
   shapes (handlePointerDown env event s) = filter (\<lambda>shape. shape_id shape \<noteq> shape_id t) (shapes s)"
  by (simp add: handlePointerDown_def initAudioContext_def deleteShape_def playNote_def Let_def)

text \<open>
  C2. With pairwise distinct shape ids, a pointer-down in eraser mode that hits a shape
  removes exactly the shape that \<open>findShapeAt\<close> returned: the new list is the old one
  without that shape, every other shape stays, in the same order.
\<close>

theorem eraser_removes_touched_shape:
  assumes ids: "distinct (map shape_id (shapes s))"
    and cv: "canvas env = Some rect"
    and er: "eraserMode s"
    and hit: "findShapeAt env (shapes s) (clientX event - rect_left rect)
                (clientY event - rect_top rect) = Some t"
  shows "shapes (handlePointerDown env event s) = remove1 t (shapes s)
         \<and> t \<in> set (shapes s)
         \<and> t \<notin> set (shapes (handlePointerDown env event s))
         \<and> set (shapes (handlePointerDown env event s)) = set (shapes s) - {t}
         \<and> length (shapes (handlePointerDown env event s)) + 1 = length (shapes s)"
proof -
  from hit have mem: "t \<in> set (shapes s)" by (rule findShapeAt_mem)
  from ids have dist: "distinct (shapes s)" by (rule distinct_map [THEN iffD1, THEN conjunct1])
  have eq: "shapes (handlePointerDown env event s) = remove1 t (shapes s)"
    using handlePointerDown_erase [OF cv er hit] filter_other_ids [OF ids mem] by simp
  moreover have "set (remove1 t (shapes s)) = set (shapes s) - {t}"
    using dist by simp
  moreover have "length (remove1 t (shapes s)) + 1 = length (shapes s)"
    using mem by (simp add: length_remove1) (metis length_pos_if_in_set Suc_pred)
  ultimately show ?thesis using mem by simp
qed

text \<open>Erasing at \<open>(100, 100)\<close>, where \<open>shapeB\<close> lies over \<open>shapeA\<close>, leaves \<open>shapeA\<close>.\<close>

theorem eraser_removes_touched_shape_witness:
  "shapes (handlePointerDown canvasEnv (tap 100 100)
             (initialHome\<lparr>shapes := [shapeA, shapeB], eraserMode := True\<rparr>)) = [shapeA]"
proof -
  let ?s = "initialHome\<lparr>shapes := [shapeA, shapeB], eraserMode := True\<rparr>"
  have ids: "distinct (map shape_id (shapes ?s))"
    by (simp add: shapeA_def shapeB_def)
  have cv: "canvas canvasEnv = Some \<lparr>rect_left = 0, rect_top = 0\<rparr>"
    by (simp add: canvasEnv_def)
  have er: "eraserMode ?s" by simp
  have hit: "findShapeAt canvasEnv (shapes ?s) (clientX (tap 100 100) - rect_left \<lparr>rect_left = 0, rect_top = 0\<rparr>)
                (clientY (tap 100 100) - rect_top \<lparr>rect_left = 0, rect_top = 0\<rparr>) = Some shapeB"
    by (simp add: findShapeAt_def tap_def shapeA_def shapeB_def canvasEnv_def double_simps)
  from eraser_removes_touched_shape [OF ids cv er hit]
  have "shapes (handlePointerDown canvasEnv (tap 100 100) ?s) = remove1 shapeB (shapes ?s)"
    by blast
  then show ?thesis by (simp add: shapeA_def shapeB_def)
qed

subsection \<open>Tapping empty space\<close>

lemma random_index:
  assumes "0 \<le> r" "r < 1" "0 < n"
  shows "nat \<lfloor>r * real n\<rfloor> < n"
proof -
  have "r * real n < real n" using assms by simp
  then have "\<lfloor>r * real n\<rfloor> < int n" by (simp add: floor_less_iff)
  moreover have "0 \<le> \<lfloor>r * real n\<rfloor>" using assms by simp
  ultimately show ?thesis by linarith
qed

lemma getRandomColor_in_palette:
  assumes "0 \<le> randomColor env" "randomColor env < 1"
  shows "getRandomColor env s \<in> set (COLOR_PALETTES (currentPalette s))"
proof -
  have len: "0 < length (COLOR_PALETTES (currentPalette s))"
    by (cases "currentPalette s") simp_all
  from random_index [OF assms len] show ?thesis
    by (simp add: getRandomColor_def Let_def)
qed

text \<open>
  C1, as the code has it. \<open>createShape\<close> returns at once in eraser mode, so the claim
  holds with the eraser off: a pointer-down that hits no shape then appends exactly one
  shape, with a colour of the current palette and a size between \<open>currentSize - 10\<close>
  and \<open>currentSize + 10\<close>. The two random draws are in \<open>[0, 1)\<close>, as \<open>Math.random()\<close>
  promises.
\<close>

theorem tap_on_empty_space_without_eraser:
  assumes cv: "canvas env = Some rect"
    and miss: "findShapeAt env (shapes s) (clientX event - rect_left rect)
                 (clientY event - rect_top rect) = None"
    and er: "\<not> eraserMode s"
    and rc: "0 \<le> randomColor env \<and> randomColor env < 1"
    and rs: "0 \<le> randomSize env \<and> randomSize env < 1"
  shows "\<exists>newShape.
           shapes (handlePointerDown env event s) = shapes s @ [newShape]
         \<and> shape_color newShape \<in> set (COLOR_PALETTES (currentPalette s))
         \<and> currentSize s - 10 \<le> shape_size newShape
         \<and> shape_size newShape \<le> currentSize s + 10"
proof -
  let ?new = "\<lparr>shape_id = newShapeId env, shape_x = clientX event - rect_left rect,
               shape_y = clientY event - rect_top rect,
               shape_type = currentShape s, shape_color = getRandomColor env s,
               shape_size = currentSize s + randomSize env * 20 - 10,
               shape_palette = currentPalette s, shape_opacity = 9 / 10\<rparr>"
  have "shapes (handlePointerDown env event s) = shapes s @ [?new]"
    using cv miss er
    by (simp add: handlePointerDown_def initAudioContext_def createShape_def
        createSpreadingWave_def playNote_def getRandomColor_def Let_def)
  moreover have "shape_color ?new \<in> set (COLOR_PALETTES (currentPalette s))"
    using getRandomColor_in_palette [of env s] rc by simp
  moreover have "currentSize s - 10 \<le> shape_size ?new \<and> shape_size ?new \<le> currentSize s + 10"
    using rs by simp
  ultimately show ?thesis by blast
qed

text \<open>A tap at \<open>(100, 100)\<close> on the initial page.\<close>

theorem tap_on_empty_space_without_eraser_witness:
  "canvas canvasEnv = Some \<lparr>rect_left = 0, rect_top = 0\<rparr>
   \<and> findShapeAt canvasEnv (shapes initialHome) 100 100 = None
   \<and> \<not> eraserMode initialHome
   \<and> (\<exists>newShape.
         shapes (handlePointerDown canvasEnv (tap 100 100) initialHome) = shapes initialHome @ [newShape]
       \<and> shape_color newShape \<in> set (COLOR_PALETTES (currentPalette initialHome))
       \<and> currentSize initialHome - 10 \<le> shape_size newShape
       \<and> shape_size newShape \<le> currentSize initialHome + 10)"
proof -
  have cv: "canvas canvasEnv = Some \<lparr>rect_left = 0, rect_top = 0\<rparr>"
    by (simp add: canvasEnv_def)
  have miss: "findShapeAt canvasEnv (shapes initialHome)
                (clientX (tap 100 100) - rect_left \<lparr>rect_left = 0, rect_top = 0\<rparr>)
                (clientY (tap 100 100) - rect_top \<lparr>rect_left = 0, rect_top = 0\<rparr>) = None"
    by (simp add: findShapeAt_def initialHome_def)
  then have miss': "findShapeAt canvasEnv (shapes initialHome) 100 100 = None"
    by (simp add: tap_def)
  have er: "\<not> eraserMode initialHome" by (simp add: initialHome_def)
  have rc: "0 \<le> randomColor canvasEnv \<and> randomColor canvasEnv < 1" by (simp add: canvasEnv_def)
  have rs: "0 \<le> randomSize canvasEnv \<and> randomSize canvasEnv < 1" by (simp add: canvasEnv_def)
  from tap_on_empty_space_without_eraser [OF cv miss er rc rs] cv miss' er
  show ?thesis by blast
qed

text \<open>
  C1 as stated fails in eraser mode: after a click on the eraser button, a pointer-down
  on the empty canvas hits no shape and leaves the shape list as it was.
\<close>

theorem tap_on_empty_space_counterexample:
  "eraserMode eraserOn
   \<and> canvas canvasEnv = Some \<lparr>rect_left = 0, rect_top = 0\<rparr>
   \<and> findShapeAt canvasEnv (shapes eraserOn) (clientX (tap 100 100) - 0) (clientY (tap 100 100) - 0) = None
   \<and> shapes (handlePointerDown canvasEnv (tap 100 100) eraserOn) = shapes eraserOn"
  by (simp add: eraserOn_def input_defs handler_defs Let_def)

subsection \<open>A short press on a shape\<close>

lemma whilePressed_step:
  assumes "whilePressed e" and "draggedShape s = None"
  shows "shapes (step env e s) = shapes s \<and> draggedShape (step env e s) = None
         \<and> longPressTimer (step env e s) = longPressTimer s"
  using assms
  by (cases e)
     (simp_all add: handlePointerMove_def intervalFires_def updateParticles_def Let_def
        split: option.splits)

lemma whilePressed_run:
  assumes "\<forall>entry\<in>set between. whilePressed (snd entry)" and "draggedShape s = None"
  shows "shapes (run between s) = shapes s \<and> draggedShape (run between s) = None
         \<and> longPressTimer (run between s) = longPressTimer s"
  using assms
proof (induction between arbitrary: s)
  case Nil
  then show ?case by simp
next
  case (Cons entry between)
  obtain env e where entry: "entry = (env, e)" by (cases entry)
  from Cons.prems entry have e: "whilePressed e" by simp
  note st = whilePressed_step [OF e Cons.prems(2), of env]
  from Cons.prems(1) have rest: "\<forall>entry\<in>set between. whilePressed (snd entry)" by simp
  from st have "draggedShape (step env e s) = None" by blast
  from Cons.IH [OF rest this] st entry show ?case by simp
qed

lemma handlePointerDown_press:
  assumes "canvas env = Some rect"
    and "findShapeAt env (shapes s) (clientX event - rect_left rect)
           (clientY event - rect_top rect) = Some t"
    and "\<not> eraserMode s"
  shows "shapes (handlePointerDown env event s) = shapes s
         \<and> draggedShape (handlePointerDown env event s) = draggedShape s
         \<and> longPressTimer (handlePointerDown env event s) = Some (nextHandle s)
         \<and> nextHandle s \<in> fst ` set (timeouts (handlePointerDown env event s))"
  using assms
  by (simp add: handlePointerDown_def initAudioContext_def Let_def)

lemma handlePointerUp_pending:
  assumes "draggedShape s = None" and "longPressTimer s = Some h"
  shows "shapes (handlePointerUp s) = shapes s
         \<and> draggedShape (handlePointerUp s) = None
         \<and> longPressTimer (handlePointerUp s) = None
         \<and> h \<notin> fst ` set (timeouts (handlePointerUp s))"
  using assms
  by (auto simp: handlePointerUp_def clearTimer_def Let_def)

text \<open>
  C4, as the code has it. \<open>handlePointerUp\<close> ends whatever drag is going on and sets the
  dragged shape's opacity to 1, so the claim needs a page on which no shape is being
  dragged. Then a pointer-down that hits a shape with the eraser off, any number of
  pointer moves and interval ticks, and a pointer-up with no long-press timeout fired in
  between leave the shape list exactly as it was, and the timeout that the pointer-down
  started is no longer pending.
\<close>

theorem short_press_keeps_shapes:
  assumes cv: "canvas env = Some rect"
    and hit: "findShapeAt env (shapes s) (clientX event - rect_left rect)
                (clientY event - rect_top rect) = Some t"
    and er: "\<not> eraserMode s"
    and idle: "draggedShape s = None"
    and quiet: "\<forall>entry\<in>set between. whilePressed (snd entry)"
  shows "shapes (handlePointerUp (run between (handlePointerDown env event s))) = shapes s
         \<and> draggedShape (handlePointerUp (run between (handlePointerDown env event s))) = None
         \<and> nextHandle s \<in> fst ` set (timeouts (handlePointerDown env event s))
         \<and> nextHandle s \<notin>
             fst ` set (timeouts (handlePointerUp (run between (handlePointerDown env event s))))"
proof -
  let ?down = "handlePointerDown env event s"
  note down = handlePointerDown_press [OF cv hit er]
  from down idle have d0: "draggedShape ?down = None" by simp
  note mid = whilePressed_run [OF quiet d0]
  from mid down have timer: "longPressTimer (run between ?down) = Some (nextHandle s)" by simp
  from mid have d1: "draggedShape (run between ?down) = None" by blast
  note up = handlePointerUp_pending [OF d1 timer]
  from up mid down show ?thesis by simp
qed

text \<open>A short press on the shape of \<open>oneShape\<close>, with a tick, a move and a tick between.\<close>

theorem short_press_keeps_shapes_witness:
  "canvas canvasEnv = Some \<lparr>rect_left = 0, rect_top = 0\<rparr>
   \<and> findShapeAt canvasEnv (shapes oneShape) 100 100 \<noteq> None
   \<and> \<not> eraserMode oneShape
   \<and> draggedShape oneShape = None
   \<and> shapes (handlePointerUp
        (run [(canvasEnv, IntervalFires 2), (canvasEnv, PointerMove (tap 101 102)),
              (canvasEnv, ParticlesTick)]
           (handlePointerDown canvasEnv (tap 100 100) oneShape))) = shapes oneShape"
proof -
  let ?between = "[(canvasEnv, IntervalFires 2), (canvasEnv, PointerMove (tap 101 102)),
              (canvasEnv, ParticlesTick)]"
  have cv: "canvas canvasEnv = Some \<lparr>rect_left = 0, rect_top = 0\<rparr>"
    by (simp add: canvasEnv_def)
  have one: "shapes oneShape =
      [\<lparr>shape_id = ''1000.5'', shape_x = 100, shape_y = 100, shape_type = Circle,
        shape_color = ''#E6B3FF'', shape_size = 80, shape_palette = Pastels,
        shape_opacity = 9 / 10\<rparr>]"
    by (simp add: oneShape_def input_defs handler_defs Let_def)
  have hit: "findShapeAt canvasEnv (shapes oneShape)
               (clientX (tap 100 100) - rect_left \<lparr>rect_left = 0, rect_top = 0\<rparr>)
               (clientY (tap 100 100) - rect_top \<lparr>rect_left = 0, rect_top = 0\<rparr>)
             = Some \<lparr>shape_id = ''1000.5'', shape_x = 100, shape_y = 100, shape_type = Circle,
        shape_color = ''#E6B3FF'', shape_size = 80, shape_palette = Pastels,
        shape_opacity = 9 / 10\<rparr>"
    unfolding one by (simp add: findShapeAt_def tap_def canvasEnv_def double_simps)
  then have hit': "findShapeAt canvasEnv (shapes oneShape) 100 100 \<noteq> None"
    by (simp add: tap_def)
  have er: "\<not> eraserMode oneShape"
    by (simp add: oneShape_def input_defs handler_defs Let_def)
  have idle: "draggedShape oneShape = None"
    by (simp add: oneShape_def input_defs handler_defs Let_def)
  have quiet: "\<forall>entry\<in>set ?between. whilePressed (snd entry)" by simp
  from short_press_keeps_shapes [OF cv hit er idle quiet] cv hit' er idle
  show ?thesis by blast
qed

text \<open>
  C4 as stated fails in two ways. While a shape is being dragged, a second pointer-down
  on the shape starts a new timeout (handle 3), and the pointer-up before it fires
  changes the shape's opacity from 0.7 to 1. And with no shape dragged but an older
  timeout still pending (handle 1 on the page \<open>orphanTimer\<close>), that timeout can fire
  between the pointer-down and the pointer-up, before the timeout of the press itself
  (handle 5): the opacity goes from 0.9 to 1.
\<close>

theorem short_press_counterexample:
  "canvas canvasEnv = Some \<lparr>rect_left = 0, rect_top = 0\<rparr>
   \<and> findShapeAt canvasEnv (shapes dragging) (clientX (tap 100 100) - 0) (clientY (tap 100 100) - 0) \<noteq> None
   \<and> \<not> eraserMode dragging
   \<and> map fst (timeouts (handlePointerDown canvasEnv (tap 100 100) dragging)) = [3]
   \<and> map shape_opacity (shapes dragging) = [7 / 10]
   \<and> map shape_opacity
        (shapes (handlePointerUp (handlePointerDown canvasEnv (tap 100 100) dragging))) = [1]
   \<and> findShapeAt canvasEnv (shapes orphanTimer) (clientX (tap 100 100) - 0) (clientY (tap 100 100) - 0) \<noteq> None
   \<and> \<not> eraserMode orphanTimer
   \<and> draggedShape orphanTimer = None
   \<and> map fst (timeouts (handlePointerDown canvasEnv (tap 100 100) orphanTimer)) = [1, 5]
   \<and> map shape_opacity (shapes orphanTimer) = [9 / 10]
   \<and> map shape_opacity
        (shapes (handlePointerUp
           (timeoutFires 1 (handlePointerDown canvasEnv (tap 100 100) orphanTimer)))) = [1]"
  by (simp add: dragging_def orphanTimer_def pressedTwice_def oneShape_def input_defs handler_defs Let_def)

subsection \<open>Releasing a dragged shape\<close>

text \<open>
  C5 fails on the code. \<open>createShape\<close> gives a shape the opacity 0.9, the long-press
  callback sets it to 0.7, and \<open>handlePointerUp\<close>, under the comment \<open>Restore opacity of
  dragged shape\<close>, sets it to 1: the shape of \<open>oneShape\<close> does not get its opacity of
  before the drag back.
\<close>

theorem drag_release_opacity:
  "map shape_id (shapes oneShape) = [''1000.5'']
   \<and> map shape_opacity (shapes oneShape) = [9 / 10]
   \<and> map_option shape_id (draggedShape dragging) = Some ''1000.5''
   \<and> map shape_opacity (shapes dragging) = [7 / 10]
   \<and> draggedShape (handlePointerUp dragging) = None
   \<and> map shape_id (shapes (handlePointerUp dragging)) = [''1000.5'']
   \<and> map shape_opacity (shapes (handlePointerUp dragging)) = [1]"
  by (simp add: dragging_def oneShape_def input_defs handler_defs Let_def)

text \<open>Whatever the state, the pointer-up writes the opacity 1 into the dragged shape.\<close>

lemma handlePointerUp_full_opacity:
  "draggedShape s = Some dragged \<Longrightarrow>
   shapes (handlePointerUp s) =
     map (\<lambda>shape. if shape_id shape = shape_id dragged then shape\<lparr>shape_opacity := 1\<rparr> else shape)
       (shapes s)"
  by (simp add: handlePointerUp_def playNote_def Let_def split: option.splits)

subsection \<open>What a pointer-up resets\<close>

text \<open>
  C10 fails on the code. \<open>handlePointerDown\<close> overwrites \<open>longPressTimer\<close> without
  clearing the timeout it held. After two pointer-downs on a shape, \<open>handlePointerUp\<close>
  clears the second timeout (handle 3) only: the first (handle 1) is still pending, and
  when it fires the shape goes into drag state although no pointer is down.
\<close>

theorem pointer_up_leaves_timer_pending:
  "longPressTimer pressedTwice = Some 3
   \<and> map fst (timeouts pressedTwice) = [1, 3]
   \<and> longPressTimer (handlePointerUp pressedTwice) = None
   \<and> map fst (timeouts (handlePointerUp pressedTwice)) = [1]
   \<and> draggedShape (handlePointerUp pressedTwice) = None
   \<and> draggedShape (timeoutFires 1 (handlePointerUp pressedTwice)) \<noteq> None
   \<and> map shape_opacity (shapes (timeoutFires 1 (handlePointerUp pressedTwice))) = [7 / 10]"
  by (simp add: pressedTwice_def oneShape_def input_defs handler_defs Let_def)

text \<open>
  The five state cells are reset by every pointer-up, and the timeout that
  \<open>longPressTimer\<close> named is cleared.
\<close>

lemma handlePointerUp_resets:
  "draggedShape (handlePointerUp s) = None
   \<and> dragOffset (handlePointerUp s) = (0, 0)
   \<and> \<not> showLongPressIndicator (handlePointerUp s)
   \<and> longPressProgress (handlePointerUp s) = 0
   \<and> longPressTimer (handlePointerUp s) = None
   \<and> (\<forall>h. longPressTimer s = Some h \<longrightarrow> h \<notin> fst ` set (timeouts (handlePointerUp s)))"
  by (auto simp: handlePointerUp_def playNote_def clearTimer_def Let_def split: option.splits)

end
